theory Spec2Isabelle
  imports Complex_Main "HOL-Library.Sublist"
begin

section \<open>Values\<close>

text \<open>
  Request bodies, query strings, path parameters and stored documents are JSON values.
  Numbers are the integers (fractions and the rounding of IEEE doubles are left out),
  strings are ASCII, and an object is its list of members; looking a key up takes the
  first member of that name. A property that is absent (JavaScript's \<open>undefined\<close>) is
  \<open>None\<close>.
\<close>

datatype json =
    JNull
  | JBool bool
  | JNum int
  | JStr string
  | JArr "json list"
  | JObj "(string \<times> json) list"

text \<open>JavaScript's truthiness, as \<open>!x\<close> and \<open>x && y\<close> read it.\<close>

fun truthy :: "json option \<Rightarrow> bool" where
  "truthy None = False"
| "truthy (Some JNull) = False"
| "truthy (Some (JBool b)) = b"
| "truthy (Some (JNum n)) = (n \<noteq> 0)"
| "truthy (Some (JStr s)) = (s \<noteq> [])"
| "truthy (Some (JArr xs)) = True"
| "truthy (Some (JObj kvs)) = True"

text \<open>Property access \<open>o.k\<close>: only an object has named members here.\<close>

fun member_of :: "json \<Rightarrow> string \<Rightarrow> json option" where
  "member_of (JObj kvs) k = map_of kvs k"
| "member_of _ k = None"

text \<open>Assigning one member of an object, in place when the key is there already.\<close>

fun put :: "string \<Rightarrow> json \<Rightarrow> (string \<times> json) list \<Rightarrow> (string \<times> json) list" where
  "put k v [] = [(k, v)]"
| "put k v ((k', v') # kvs) = (if k = k' then (k, v) # kvs else (k', v') # put k v kvs)"

section \<open>Strings and numbers\<close>

definition digit_char :: "nat \<Rightarrow> char" where
  "digit_char d = char_of (48 + d)"

fun dec :: "nat \<Rightarrow> string" where
  "dec n = (if n < 10 then [digit_char n] else dec (n div 10) @ [digit_char (n mod 10)])"

declare dec.simps [simp del]

definition show_int :: "int \<Rightarrow> string" where
  "show_int i = (if i < 0 then CHR ''-'' # dec (nat (- i)) else dec (nat i))"

definition is_digit :: "char \<Rightarrow> bool" where
  "is_digit c = (48 \<le> (of_char c :: nat) \<and> (of_char c :: nat) \<le> 57)"

definition digit_val :: "char \<Rightarrow> int" where
  "digit_val c = int (of_char c) - 48"

definition digits_val :: "string \<Rightarrow> int" where
  "digits_val ds = foldl (\<lambda>a c. 10 * a + digit_val c) 0 ds"

text \<open>White space of the regular-expression class \<open>\s\<close>, within ASCII.\<close>

definition is_space :: "char \<Rightarrow> bool" where
  "is_space c = (c \<in> set [CHR '' '', CHR 0x09, CHR 0x0A, CHR 0x0B, CHR 0x0C, CHR 0x0D])"

text \<open>validator.js \<open>trim\<close> with no character set: white space off both ends.\<close>

definition trim :: "string \<Rightarrow> string" where
  "trim s = rev (dropWhile is_space (rev (dropWhile is_space s)))"

section \<open>Regular expressions\<close>

text \<open>
  \<open>new RegExp(name, 'i')\<close> reads the search name as a pattern. The model parses the
  fragment of the pattern syntax made of literal characters, \<open>.\<close>, groups \<open>( )\<close>,
  alternation \<open>|\<close>, the greedy quantifiers \<open>*\<close>, \<open>+\<close>, \<open>?\<close> and an escaped syntax
  character; it tells a pattern that is no regular expression (\<open>SyntaxError\<close>) from one
  that uses syntax beyond the fragment (\<open>Beyond\<close>: classes, braces, anchors, lazy
  quantifiers, \<open>(?\<close> groups, other escapes).
\<close>

datatype rx =
    Nomatch
  | Eps
  | Chr char
  | Dot
  | Seq rx rx
  | Alt rx rx
  | Star rx

datatype parsed = Parsed rx | SyntaxError | Beyond

datatype prev = Start | Atom | Quant

definition syntax_char :: "char \<Rightarrow> bool" where
  "syntax_char c = (c = CHR 0x5C \<or> c \<in> set ''^$.*+?()[]{}|'')"

definition seq_of :: "rx list \<Rightarrow> rx" where
  "seq_of rs = foldr Seq rs Eps"

fun alt_of :: "rx list \<Rightarrow> rx" where
  "alt_of [] = Eps"
| "alt_of [r] = r"
| "alt_of (r # rs) = Alt r (alt_of rs)"

text \<open>A frame is one open group: its finished alternatives and the items of the current one.\<close>

type_synonym frame = "rx list \<times> rx list"

definition close_frame :: "frame \<Rightarrow> rx" where
  "close_frame f = alt_of (fst f @ [seq_of (snd f)])"

definition quantify :: "char \<Rightarrow> rx \<Rightarrow> rx" where
  "quantify q r =
     (if q = CHR ''*'' then Star r
      else if q = CHR ''+'' then Seq r (Star r)
      else Alt r Eps)"

fun parse_rx :: "frame \<Rightarrow> frame list \<Rightarrow> prev \<Rightarrow> string \<Rightarrow> parsed" where
  "parse_rx f stk p [] = (if stk = [] then Parsed (close_frame f) else SyntaxError)"
| "parse_rx f stk p (c # cs) =
     (if c = CHR ''('' then
        (case cs of
           d # ds \<Rightarrow> if d = CHR ''?'' then Beyond else parse_rx ([], []) (f # stk) Start cs
         | [] \<Rightarrow> parse_rx ([], []) (f # stk) Start cs)
      else if c = CHR '')'' then
        (case stk of
           [] \<Rightarrow> SyntaxError
         | g # stk' \<Rightarrow> parse_rx (fst g, snd g @ [close_frame f]) stk' Atom cs)
      else if c = CHR ''|'' then parse_rx (fst f @ [seq_of (snd f)], []) stk Start cs
      else if c = CHR ''*'' \<or> c = CHR ''+'' \<or> c = CHR ''?'' then
        (case p of
           Start \<Rightarrow> SyntaxError
         | Quant \<Rightarrow> if c = CHR ''?'' then Beyond else SyntaxError
         | Atom \<Rightarrow> parse_rx (fst f, butlast (snd f) @ [quantify c (last (snd f))]) stk Quant cs)
      else if c = CHR 0x5C then
        (case cs of
           [] \<Rightarrow> SyntaxError
         | d # ds \<Rightarrow>
             if syntax_char d then parse_rx (fst f, snd f @ [Chr d]) stk Atom ds else Beyond)
      else if c = CHR ''.'' then parse_rx (fst f, snd f @ [Dot]) stk Atom cs
      else if syntax_char c then Beyond
      else parse_rx (fst f, snd f @ [Chr c]) stk Atom cs)"

definition parse_pattern :: "string \<Rightarrow> parsed" where
  "parse_pattern s = parse_rx ([], []) [] Start s"

text \<open>
  Flag \<open>i\<close>: two characters match when their canonical (upper-case) forms agree. Within
  ASCII only the letters \<open>a\<close> to \<open>z\<close> change.
\<close>

definition canon :: "char \<Rightarrow> char" where
  "canon c = (let n = (of_char c :: nat) in if 97 \<le> n \<and> n \<le> 122 then char_of (n - 32) else c)"

definition line_end :: "char \<Rightarrow> bool" where
  "line_end c = (c = CHR 0x0A \<or> c = CHR 0x0D)"

fun nullable :: "rx \<Rightarrow> bool" where
  "nullable Nomatch = False"
| "nullable Eps = True"
| "nullable (Chr c) = False"
| "nullable Dot = False"
| "nullable (Seq r s) = (nullable r \<and> nullable s)"
| "nullable (Alt r s) = (nullable r \<or> nullable s)"
| "nullable (Star r) = True"

text \<open>What is left of a pattern once it has read the character \<open>c\<close>.\<close>

fun deriv :: "char \<Rightarrow> rx \<Rightarrow> rx" where
  "deriv c Nomatch = Nomatch"
| "deriv c Eps = Nomatch"
| "deriv c (Chr d) = (if canon c = canon d then Eps else Nomatch)"
| "deriv c Dot = (if line_end c then Nomatch else Eps)"
| "deriv c (Seq r s) =
     (if nullable r then Alt (Seq (deriv c r) s) (deriv c s) else Seq (deriv c r) s)"
| "deriv c (Alt r s) = Alt (deriv c r) (deriv c s)"
| "deriv c (Star r) = Seq (deriv c r) (Star r)"

text \<open>Some prefix of the string matches the pattern.\<close>

fun match_here :: "rx \<Rightarrow> string \<Rightarrow> bool" where
  "match_here r [] = nullable r"
| "match_here r (c # cs) = (nullable r \<or> match_here (deriv c r) cs)"

text \<open>\<open>RegExp.prototype.test\<close>: the pattern matches somewhere in the string.\<close>

fun rx_test :: "rx \<Rightarrow> string \<Rightarrow> bool" where
  "rx_test r [] = nullable r"
| "rx_test r (c # cs) = (match_here r (c # cs) \<or> rx_test r cs)"

text \<open>
  The constructor: \<open>None\<close> is the thrown \<open>SyntaxError\<close>. A pattern beyond the fragment is
  decided by the parameter \<open>other\<close>, which stands for the rest of the engine.
\<close>

definition RegExp_i :: "(string \<Rightarrow> (string \<Rightarrow> bool) option) \<Rightarrow> string \<Rightarrow> (string \<Rightarrow> bool) option" where
  "RegExp_i other s =
     (case parse_pattern s of
        Parsed r \<Rightarrow> Some (rx_test r)
      | SyntaxError \<Rightarrow> None
      | Beyond \<Rightarrow> other s)"

section \<open>Requests and the validation layer\<close>

text \<open>
  A request carries its path parameters, its query and its JSON body, each an object.
  The validation chains of express-validator read a field by its path, may rewrite it
  (a sanitizer stores its result back in the request) and add one error for each value
  that fails the chain's validator.
\<close>

record request =
  params :: json
  query :: json
  body :: json

datatype location = InBody | InParams | InQuery

datatype seg = Key string | Idx nat

fun root :: "request \<Rightarrow> location \<Rightarrow> json" where
  "root req InBody = body req"
| "root req InParams = params req"
| "root req InQuery = query req"

fun with_root :: "request \<Rightarrow> location \<Rightarrow> json \<Rightarrow> request" where
  "with_root req InBody v = req\<lparr>body := v\<rparr>"
| "with_root req InParams v = req\<lparr>params := v\<rparr>"
| "with_root req InQuery v = req\<lparr>query := v\<rparr>"

fun get_seg :: "json \<Rightarrow> seg \<Rightarrow> json option" where
  "get_seg (JObj kvs) (Key k) = map_of kvs k"
| "get_seg (JObj kvs) (Idx i) = map_of kvs (dec i)"
| "get_seg (JArr xs) (Idx i) = (if i < length xs then Some (xs ! i) else None)"
| "get_seg _ _ = None"

text \<open>lodash \<open>get\<close>: \<open>None\<close> as soon as a step of the path finds nothing.\<close>

fun get_path :: "json \<Rightarrow> seg list \<Rightarrow> json option" where
  "get_path v [] = Some v"
| "get_path v (s # ss) = (case get_seg v s of None \<Rightarrow> None | Some w \<Rightarrow> get_path w ss)"

text \<open>
  Assigning one property. An array index past the end extends the array, the holes
  reading as \<open>null\<close>. A named property on an array is not part of its JSON value, so
  the array stays as it is; a value that is no object is left alone.
\<close>

fun assign :: "seg \<Rightarrow> json \<Rightarrow> json \<Rightarrow> json" where
  "assign (Key k) new (JObj kvs) = JObj (put k new kvs)"
| "assign (Idx i) new (JObj kvs) = JObj (put (dec i) new kvs)"
| "assign (Idx i) new (JArr xs) =
     (if i < length xs then JArr (xs[i := new])
      else JArr (xs @ replicate (i - length xs) JNull @ [new]))"
| "assign (Key k) new (JArr xs) = JArr xs"
| "assign s new v = v"

text \<open>lodash \<open>set\<close> puts a fresh container where a step of the path finds no object.\<close>

fun nested :: "json option \<Rightarrow> seg \<Rightarrow> json" where
  "nested (Some (JObj kvs)) t = JObj kvs"
| "nested (Some (JArr xs)) t = JArr xs"
| "nested _ (Idx i) = JArr []"
| "nested _ (Key k) = JObj []"

fun set_path :: "json \<Rightarrow> seg list \<Rightarrow> json \<Rightarrow> json" where
  "set_path v [] new = new"
| "set_path v [s] new = assign s new v"
| "set_path v (s # t # ss) new = assign s (set_path (nested (get_seg v s) t) (t # ss) new) v"

fun path_str :: "seg list \<Rightarrow> string" where
  "path_str [] = []"
| "path_str (Key k # ss) = k @ concat (map (\<lambda>s. case s of Key k' \<Rightarrow> ''.'' @ k' | Idx i \<Rightarrow> ''['' @ dec i @ '']'') ss)"
| "path_str (Idx i # ss) = ''['' @ dec i @ '']'' @ concat (map (\<lambda>s. case s of Key k' \<Rightarrow> ''.'' @ k' | Idx i \<Rightarrow> ''['' @ dec i @ '']'') ss)"

text \<open>
  The string a validator or sanitizer sees (express-validator's \<open>toString\<close>):
  \<open>undefined\<close> and \<open>null\<close> give the empty string, an array inside an array its elements
  joined by commas.
\<close>

fun commas :: "string list \<Rightarrow> string" where
  "commas [] = []"
| "commas [s] = s"
| "commas (s # ss) = s @ '','' @ commas ss"

fun js_str :: "json \<Rightarrow> string" where
  "js_str JNull = []"
| "js_str (JBool b) = (if b then ''true'' else ''false'')"
| "js_str (JNum n) = show_int n"
| "js_str (JStr s) = s"
| "js_str (JArr xs) = commas (map js_str xs)"
| "js_str (JObj kvs) = ''[object Object]''"

fun to_str :: "json option \<Rightarrow> string" where
  "to_str None = []"
| "to_str (Some (JArr (x # xs))) = js_str x"
| "to_str (Some v) = js_str v"

subsection \<open>The validators\<close>

text \<open>validator.js \<open>isInt\<close> with its default of allowing leading zeroes: \<open>^[-+]?[0-9]+$\<close>.\<close>

fun is_int_str :: "string \<Rightarrow> bool" where
  "is_int_str [] = False"
| "is_int_str (c # cs) =
     (if c = CHR ''-'' \<or> c = CHR ''+'' then cs \<noteq> [] \<and> list_all is_digit cs
      else list_all is_digit (c # cs))"

text \<open>The number such a string converts to.\<close>

fun int_of_str :: "string \<Rightarrow> int" where
  "int_of_str [] = 0"
| "int_of_str (c # cs) =
     (if c = CHR ''-'' then - digits_val cs
      else if c = CHR ''+'' then digits_val cs
      else digits_val (c # cs))"

definition isInt :: "int option \<Rightarrow> int option \<Rightarrow> string \<Rightarrow> bool" where
  "isInt lo hi s =
     (is_int_str s
      \<and> (case lo of None \<Rightarrow> True | Some l \<Rightarrow> l \<le> int_of_str s)
      \<and> (case hi of None \<Rightarrow> True | Some h \<Rightarrow> int_of_str s \<le> h))"

definition isLength :: "nat option \<Rightarrow> nat option \<Rightarrow> string \<Rightarrow> bool" where
  "isLength lo hi s =
     ((case lo of None \<Rightarrow> True | Some l \<Rightarrow> l \<le> length s)
      \<and> (case hi of None \<Rightarrow> True | Some h \<Rightarrow> length s \<le> h))"

text \<open>express-validator's \<open>isArray\<close> looks at the value itself, not at its string.\<close>

fun isArray :: "nat option \<Rightarrow> nat option \<Rightarrow> json option \<Rightarrow> bool" where
  "isArray lo hi (Some (JArr xs)) =
     ((case lo of None \<Rightarrow> True | Some l \<Rightarrow> l \<le> length xs)
      \<and> (case hi of None \<Rightarrow> True | Some h \<Rightarrow> length xs \<le> h))"
| "isArray lo hi _ = False"

text \<open>
  validator.js \<open>isURL\<close> first refuses the empty string and any string with white space,
  \<open><\<close> or \<open>>\<close>. Its remaining checks (protocol, host, top-level domain, port, length)
  are the parameter \<open>url_rest\<close>.
\<close>

definition isURL :: "(string \<Rightarrow> bool) \<Rightarrow> string \<Rightarrow> bool" where
  "isURL url_rest s =
     (s \<noteq> [] \<and> \<not> list_ex (\<lambda>c. is_space c \<or> c = CHR ''<'' \<or> c = CHR ''>'') s \<and> url_rest s)"

subsection \<open>Chains\<close>

datatype check =
    IsInt "int option" "int option"
  | IsLength "nat option" "nat option"
  | IsArray "nat option" "nat option"
  | IsURL

text \<open>
  One chain of the route tables: where the field is, whether the path ends in the
  wildcard \<open>*\<close>, whether \<open>optional()\<close> and \<open>trim()\<close> are in the chain, its validator
  and its message.
\<close>

record chain =
  c_loc :: location
  c_path :: "string list"
  c_wild :: bool
  c_optional :: bool
  c_trim :: bool
  c_check :: check
  c_msg :: string

record verr =
  e_loc :: location
  e_path :: string
  e_value :: "json option"
  e_msg :: string

definition mk :: "location \<Rightarrow> string list \<Rightarrow> bool \<Rightarrow> bool \<Rightarrow> bool \<Rightarrow> check \<Rightarrow> string \<Rightarrow> chain" where
  "mk l p w opt tr chk m =
     \<lparr>c_loc = l, c_path = p, c_wild = w, c_optional = opt, c_trim = tr, c_check = chk, c_msg = m\<rparr>"

definition default_msg :: string where
  "default_msg = ''Invalid value''"

text \<open>The fields a chain selects: one path, or one for each element under a wildcard.\<close>

definition instances :: "json \<Rightarrow> chain \<Rightarrow> seg list list" where
  "instances r ch =
     (let base = map Key (c_path ch) in
      if c_wild ch then
        (case get_path r base of
           Some (JArr xs) \<Rightarrow> map (\<lambda>i. base @ [Idx i]) [0..<length xs]
         | Some (JObj kvs) \<Rightarrow> map (\<lambda>k. base @ [Key k]) (remdups (map fst kvs))
         | _ \<Rightarrow> [])
      else [base])"

text \<open>A sanitizer works on the string of the value, element by element on an array.\<close>

fun sanitized :: "json option \<Rightarrow> json" where
  "sanitized (Some (JArr xs)) = JArr (map (\<lambda>x. JStr (trim (to_str (Some x)))) xs)"
| "sanitized v = JStr (trim (to_str v))"

fun unwrap :: "json option \<Rightarrow> json option list" where
  "unwrap (Some (JArr xs)) = map Some xs"
| "unwrap v = [v]"

definition failing :: "(string \<Rightarrow> bool) \<Rightarrow> json option \<Rightarrow> json option list" where
  "failing p v = filter (\<lambda>x. \<not> p (to_str x)) (unwrap v)"

fun failures :: "(string \<Rightarrow> bool) \<Rightarrow> check \<Rightarrow> json option \<Rightarrow> json option list" where
  "failures url_rest (IsInt lo hi) v = failing (isInt lo hi) v"
| "failures url_rest (IsLength lo hi) v = failing (isLength lo hi) v"
| "failures url_rest IsURL v = failing (isURL url_rest) v"
| "failures url_rest (IsArray lo hi) v = (if isArray lo hi v then [] else [v])"

definition run_instance ::
  "(string \<Rightarrow> bool) \<Rightarrow> chain \<Rightarrow> request \<times> verr list \<Rightarrow> seg list \<Rightarrow> request \<times> verr list" where
  "run_instance url_rest ch st segs =
     (let req = fst st;
          v = get_path (root req (c_loc ch)) segs in
      if c_optional ch \<and> v = None then st
      else
        let v1 = (if c_trim ch then Some (sanitized v) else v);
            req1 = (if c_trim ch \<and> v1 \<noteq> v
                    then with_root req (c_loc ch) (set_path (root req (c_loc ch)) segs (sanitized v))
                    else req)
        in (req1,
            snd st @ map (\<lambda>x. \<lparr>e_loc = c_loc ch, e_path = path_str segs, e_value = x, e_msg = c_msg ch\<rparr>)
                       (failures url_rest (c_check ch) v1)))"

definition run_chain :: "(string \<Rightarrow> bool) \<Rightarrow> chain \<Rightarrow> request \<Rightarrow> request \<times> verr list" where
  "run_chain url_rest ch req =
     foldl (run_instance url_rest ch) (req, []) (instances (root req (c_loc ch)) ch)"

text \<open>The chains are middleware run in order; each sees the request as the earlier ones left it.\<close>

fun run_chains :: "(string \<Rightarrow> bool) \<Rightarrow> chain list \<Rightarrow> request \<Rightarrow> request \<times> verr list" where
  "run_chains url_rest [] req = (req, [])"
| "run_chains url_rest (ch # chs) req =
     (let r1 = run_chain url_rest ch req;
          r2 = run_chains url_rest chs (fst r1)
      in (fst r2, snd r1 @ snd r2))"

section \<open>Responses, the store and its operations\<close>

datatype error = RegexSyntaxError | CastError | PersistenceError

datatype payload =
    Json json
  | ValidationFailed "verr list"
  | ErrorText error
  | ErrorJson error

record response =
  status :: nat
  payload :: payload

text \<open>The store is the collection in its natural order; a handler reports the calls it made.\<close>

datatype store_op = Find | CountDocuments | FindOne | Save | FindOneAndUpdate | FindOneAndDelete

type_synonym outcome = "response \<times> json list \<times> store_op list"

definition handleValidation :: "verr list \<Rightarrow> response option" where
  "handleValidation errors =
     (if errors \<noteq> [] then Some \<lparr>status = 400, payload = ValidationFailed errors\<rparr> else None)"

text \<open>A route: its chains, then \<open>handleValidation\<close>, then its handler when that calls \<open>next()\<close>.\<close>

definition validated ::
  "(string \<Rightarrow> bool) \<Rightarrow> chain list \<Rightarrow> (request \<Rightarrow> json list \<Rightarrow> outcome) \<Rightarrow> request \<Rightarrow> json list \<Rightarrow> outcome" where
  "validated url_rest chs handler req docs =
     (let r = run_chains url_rest chs req in
      case handleValidation (snd r) of
        Some resp \<Rightarrow> (resp, docs, [])
      | None \<Rightarrow> handler (fst r) docs)"

definition not_found :: response where
  "not_found = \<lparr>status = 404, payload = Json (JObj [(''error'', JStr ''Pokemon not found'')])\<rparr>"

text \<open>
  What the routes use and this repository's files do not define: the rest of
  \<open>isURL\<close>, the rest of the regular-expression engine, and the Mongoose schema
  (\<open>schema/pokemon.js\<close>), which casts and validates a field of an update
  (\<open>runValidators\<close>) and a document on \<open>save\<close>; \<open>None\<close> is the error it throws.
\<close>

record env =
  isURL_rest :: "string \<Rightarrow> bool"
  RegExp_other :: "string \<Rightarrow> (string \<Rightarrow> bool) option"
  schema_cast :: "string \<Rightarrow> json \<Rightarrow> json option"
  schema_save :: "json list \<Rightarrow> json \<Rightarrow> json option"

text \<open>
  The filter \<open>{ id: req.params.id }\<close>: the schema's \<open>id\<close> is a number, so the string
  of the path is cast to one. A validated \<open>id\<close> is a string of digits with an optional sign.
\<close>

fun cast_id :: "json option \<Rightarrow> int option" where
  "cast_id (Some (JStr s)) = (if is_int_str s then Some (int_of_str s) else None)"
| "cast_id _ = None"

definition has_id :: "int \<Rightarrow> json \<Rightarrow> bool" where
  "has_id n d = (member_of d ''id'' = Some (JNum n))"

fun update_first :: "('a \<Rightarrow> bool) \<Rightarrow> ('a \<Rightarrow> 'a) \<Rightarrow> 'a list \<Rightarrow> 'a list" where
  "update_first P f [] = []"
| "update_first P f (d # ds) = (if P d then f d # ds else d # update_first P f ds)"

fun remove_first :: "('a \<Rightarrow> bool) \<Rightarrow> 'a list \<Rightarrow> 'a list" where
  "remove_first P [] = []"
| "remove_first P (d # ds) = (if P d then ds else d # remove_first P ds)"

section \<open>The routes\<close>

subsection \<open>GET /pokemons\<close>

definition list_chains :: "chain list" where
  "list_chains =
     [mk InQuery [''page''] False True False (IsInt (Some 1) None) ''page must be >= 1'',
      mk InQuery [''limit''] False True False (IsInt (Some 1) (Some 100))
         ''limit must be between 1 and 100'']"

text \<open>
  \<open>parseInt\<close> in base ten: white space, a sign, then the longest run of digits;
  \<open>None\<close> is NaN. (A validated value has no \<open>0x\<close> prefix, which is left out.)
\<close>

definition parse_digits :: "string \<Rightarrow> int option" where
  "parse_digits s = (let ds = takeWhile is_digit s in if ds = [] then None else Some (digits_val ds))"

fun parse_signed :: "string \<Rightarrow> int option" where
  "parse_signed [] = None"
| "parse_signed (c # cs) =
     (if c = CHR ''-'' then map_option uminus (parse_digits cs)
      else if c = CHR ''+'' then parse_digits cs
      else parse_digits (c # cs))"

fun parseInt :: "json option \<Rightarrow> int option" where
  "parseInt None = None"
| "parseInt (Some v) = parse_signed (dropWhile is_space (js_str v))"

text \<open>\<open>parseInt(x) || d\<close>: NaN and 0 are falsy.\<close>

definition or_default :: "int option \<Rightarrow> int \<Rightarrow> int" where
  "or_default r d = (case r of None \<Rightarrow> d | Some n \<Rightarrow> if n = 0 then d else n)"

definition pagination :: "int \<Rightarrow> int \<Rightarrow> int \<Rightarrow> int \<Rightarrow> json" where
  "pagination page totalPages count limit =
     JObj [(''currentPage'', JNum page), (''totalPages'', JNum totalPages),
           (''totalPokemons'', JNum count), (''pokemonsPerPage'', JNum limit)]"

text \<open>
  \<open>find({}).skip(skip).limit(limit)\<close> on the collection in its natural order, then
  \<open>countDocuments({})\<close>; the source's \<open>total\<close> is \<open>count\<close> here. The validated values
  make \<open>skip\<close> at least 0 and \<open>limit\<close> at least 1, and the store is taken to accept
  every such \<open>skip\<close>, however large.
\<close>

definition list_handler :: "request \<Rightarrow> json list \<Rightarrow> outcome" where
  "list_handler req docs =
     (let page = or_default (parseInt (member_of (query req) ''page'')) 1;
          limit = or_default (parseInt (member_of (query req) ''limit'')) 20;
          skip = (page - 1) * limit;
          pokemons = take (nat limit) (drop (nat skip) docs);
          count = int (length docs);
          totalPages = \<lceil>real_of_int count / real_of_int limit\<rceil>
      in (\<lparr>status = 200,
           payload = Json (JObj [(''data'', JArr pokemons),
                                 (''pagination'', pagination page totalPages count limit)])\<rparr>,
          docs, [Find, CountDocuments]))"

subsection \<open>GET /pokemons/:id\<close>

definition id_chains :: "chain list" where
  "id_chains =
     [mk InParams [''id''] False False False (IsInt (Some 1) None) ''id must be a positive integer'']"

definition get_handler :: "request \<Rightarrow> json list \<Rightarrow> outcome" where
  "get_handler req docs =
     (case cast_id (member_of (params req) ''id'') of
        None \<Rightarrow> (\<lparr>status = 500, payload = ErrorText CastError\<rparr>, docs, [FindOne])
      | Some n \<Rightarrow>
          (case find (has_id n) docs of
             Some poke \<Rightarrow> (\<lparr>status = 200, payload = Json poke\<rparr>, docs, [FindOne])
           | None \<Rightarrow> (not_found, docs, [FindOne])))"

subsection \<open>GET /pokemons/search/:name\<close>

definition search_chains :: "chain list" where
  "search_chains =
     [mk InParams [''name''] False False True (IsLength (Some 1) (Some 50)) ''name must be 1-50 chars'']"

text \<open>A regular expression in a filter matches a field that holds a string.\<close>

definition field_matches :: "(string \<Rightarrow> bool) \<Rightarrow> json \<Rightarrow> string \<Rightarrow> bool" where
  "field_matches t d lang =
     (case get_path d [Key ''name'', Key lang] of Some (JStr s) \<Rightarrow> t s | _ \<Rightarrow> False)"

definition name_matches :: "(string \<Rightarrow> bool) \<Rightarrow> json \<Rightarrow> bool" where
  "name_matches t d =
     (field_matches t d ''english'' \<or> field_matches t d ''french'' \<or> field_matches t d ''japanese'')"

text \<open>
  The pattern is the path parameter as the sanitizer left it. The constructor throws
  before \<open>findOne\<close> is called; the \<open>catch\<close> answers 500.
\<close>

definition search_handler :: "env \<Rightarrow> request \<Rightarrow> json list \<Rightarrow> outcome" where
  "search_handler e req docs =
     (let name = to_str (member_of (params req) ''name'') in
      case RegExp_i (RegExp_other e) name of
        None \<Rightarrow> (\<lparr>status = 500, payload = ErrorText RegexSyntaxError\<rparr>, docs, [])
      | Some t \<Rightarrow>
          (case find (name_matches t) docs of
             Some poke \<Rightarrow> (\<lparr>status = 200, payload = Json poke\<rparr>, docs, [FindOne])
           | None \<Rightarrow> (not_found, docs, [FindOne])))"

subsection \<open>POST /pokemons\<close>

definition stat_names :: "string list" where
  "stat_names = [''HP'', ''Attack'', ''Defense'', ''SpecialAttack'', ''SpecialDefense'', ''Speed'']"

definition create_chains :: "chain list" where
  "create_chains =
     [mk InBody [''id''] False False False (IsInt (Some 1) None) ''id must be a positive integer'',
      mk InBody [''name'', ''english''] False False True (IsLength (Some 1) (Some 50)) default_msg,
      mk InBody [''name'', ''french''] False True True (IsLength None (Some 50)) default_msg,
      mk InBody [''name'', ''japanese''] False True True (IsLength None (Some 50)) default_msg,
      mk InBody [''name'', ''chinese''] False True True (IsLength None (Some 50)) default_msg,
      mk InBody [''type''] False False False (IsArray (Some 1) (Some 2)) default_msg,
      mk InBody [''type''] True False True (IsLength (Some 1) (Some 20)) default_msg]
     @ map (\<lambda>st. mk InBody [''base'', st] False False False (IsInt (Some 1) (Some 255)) default_msg)
         stat_names
     @ [mk InBody [''image''] False False False IsURL ''image must be a valid URL'']"

definition missing_fields :: response where
  "missing_fields = \<lparr>status = 400, payload = Json (JObj [(''error'', JStr ''Missing required fields'')])\<rparr>"

definition create_handler :: "env \<Rightarrow> request \<Rightarrow> json list \<Rightarrow> outcome" where
  "create_handler e req docs =
     (let b = body req in
      if \<not> truthy (member_of b ''id'') \<or> \<not> truthy (member_of b ''name'')
         \<or> \<not> truthy (member_of b ''type'') \<or> \<not> truthy (member_of b ''base'')
         \<or> \<not> truthy (member_of b ''image'')
      then (missing_fields, docs, [])
      else
        (case schema_save e docs
                (JObj (concat (map (\<lambda>k. case member_of b k of Some v \<Rightarrow> [(k, v)] | None \<Rightarrow> [])
                                   [''id'', ''name'', ''type'', ''base'', ''image''])))
         of
           None \<Rightarrow> (\<lparr>status = 500, payload = ErrorJson PersistenceError\<rparr>, docs, [Save])
         | Some saved \<Rightarrow> (\<lparr>status = 201, payload = Json saved\<rparr>, docs @ [saved], [Save])))"

subsection \<open>PUT /pokemons/:id\<close>

definition update_chains :: "chain list" where
  "update_chains =
     [mk InParams [''id''] False False False (IsInt (Some 1) None) ''id must be a positive integer'',
      mk InBody [''name'', ''english''] False True True (IsLength (Some 1) (Some 50)) default_msg,
      mk InBody [''name'', ''french''] False True True (IsLength None (Some 50)) default_msg,
      mk InBody [''name'', ''japanese''] False True True (IsLength None (Some 50)) default_msg,
      mk InBody [''name'', ''chinese''] False True True (IsLength None (Some 50)) default_msg,
      mk InBody [''type''] False True False (IsArray (Some 1) (Some 2)) default_msg,
      mk InBody [''type''] True True True (IsLength (Some 1) (Some 20)) default_msg]
     @ map (\<lambda>st. mk InBody [''base'', st] False True False (IsInt (Some 1) (Some 255)) default_msg)
         stat_names
     @ [mk InBody [''image''] False True True (IsLength (Some 1) None) default_msg]"

text \<open>\<open>...(x && { x })\<close>: the field goes into the update only when its value is truthy.\<close>

definition spread :: "json \<Rightarrow> string \<Rightarrow> (string \<times> json) list" where
  "spread b k = (case member_of b k of Some v \<Rightarrow> if truthy (Some v) then [(k, v)] else [] | None \<Rightarrow> [])"

definition update_fields :: "json \<Rightarrow> (string \<times> json) list" where
  "update_fields b = spread b ''name'' @ spread b ''type'' @ spread b ''base'' @ spread b ''image''"

text \<open>The schema casts and validates each field of the update; one failure throws.\<close>

definition cast_update :: "env \<Rightarrow> (string \<times> json) list \<Rightarrow> (string \<times> json) list option" where
  "cast_update e upd = those (map (\<lambda>kv. map_option (Pair (fst kv)) (schema_cast e (fst kv) (snd kv))) upd)"

text \<open>The update sets each of its top-level fields on the document, whole.\<close>

definition apply_update :: "(string \<times> json) list \<Rightarrow> json \<Rightarrow> json" where
  "apply_update upd d = foldl (\<lambda>doc kv. assign (Key (fst kv)) (snd kv) doc) d upd"

definition update_handler :: "env \<Rightarrow> request \<Rightarrow> json list \<Rightarrow> outcome" where
  "update_handler e req docs =
     (case cast_id (member_of (params req) ''id'') of
        None \<Rightarrow> (\<lparr>status = 500, payload = ErrorJson CastError\<rparr>, docs, [FindOneAndUpdate])
      | Some n \<Rightarrow>
          (case cast_update e (update_fields (body req)) of
             None \<Rightarrow> (\<lparr>status = 500, payload = ErrorJson PersistenceError\<rparr>, docs, [FindOneAndUpdate])
           | Some upd \<Rightarrow>
               (case find (has_id n) docs of
                  None \<Rightarrow> (not_found, docs, [FindOneAndUpdate])
                | Some old \<Rightarrow>
                    (\<lparr>status = 200, payload = Json (apply_update upd old)\<rparr>,
                     update_first (has_id n) (apply_update upd) docs,
                     [FindOneAndUpdate]))))"

subsection \<open>DELETE /pokemons/:id\<close>

definition delete_handler :: "request \<Rightarrow> json list \<Rightarrow> outcome" where
  "delete_handler req docs =
     (case cast_id (member_of (params req) ''id'') of
        None \<Rightarrow> (\<lparr>status = 500, payload = ErrorJson CastError\<rparr>, docs, [FindOneAndDelete])
      | Some n \<Rightarrow>
          (case find (has_id n) docs of
             None \<Rightarrow> (not_found, docs, [FindOneAndDelete])
           | Some poke \<Rightarrow>
               (\<lparr>status = 200,
                  payload = Json (JObj [(''message'', JStr ''Pokemon deleted successfully''),
                                        (''pokemon'', poke)])\<rparr>,
                remove_first (has_id n) docs,
                [FindOneAndDelete])))"

subsection \<open>The route table\<close>

datatype route = ListPokemons | GetPokemon | SearchPokemon | CreatePokemon | UpdatePokemon | DeletePokemon

fun route_chains :: "route \<Rightarrow> chain list" where
  "route_chains ListPokemons = list_chains"
| "route_chains GetPokemon = id_chains"
| "route_chains SearchPokemon = search_chains"
| "route_chains CreatePokemon = create_chains"
| "route_chains UpdatePokemon = update_chains"
| "route_chains DeletePokemon = id_chains"

fun route_handler :: "env \<Rightarrow> route \<Rightarrow> request \<Rightarrow> json list \<Rightarrow> outcome" where
  "route_handler e ListPokemons = list_handler"
| "route_handler e GetPokemon = get_handler"
| "route_handler e SearchPokemon = search_handler e"
| "route_handler e CreatePokemon = create_handler e"
| "route_handler e UpdatePokemon = update_handler e"
| "route_handler e DeletePokemon = delete_handler"

definition serve :: "env \<Rightarrow> route \<Rightarrow> request \<Rightarrow> json list \<Rightarrow> outcome" where
  "serve e r = validated (isURL_rest e) (route_chains r) (route_handler e r)"

text \<open>The errors the validation layer finds in a request, and the request it hands on.\<close>

definition violations :: "env \<Rightarrow> route \<Rightarrow> request \<Rightarrow> verr list" where
  "violations e r req = snd (run_chains (isURL_rest e) (route_chains r) req)"

definition sanitised :: "env \<Rightarrow> route \<Rightarrow> request \<Rightarrow> request" where
  "sanitised e r req = fst (run_chains (isURL_rest e) (route_chains r) req)"

text \<open>
  An environment to run examples in: every URL check beyond the first passes, and the
  schema takes any value as it is.
\<close>

definition plain_env :: env where
  "plain_env =
     \<lparr>isURL_rest = (\<lambda>s. True), RegExp_other = (\<lambda>s. None),
      schema_cast = (\<lambda>k v. Some v), schema_save = (\<lambda>docs d. Some d)\<rparr>"

definition req_of :: "(string \<times> json) list \<Rightarrow> (string \<times> json) list \<Rightarrow> (string \<times> json) list \<Rightarrow> request" where
  "req_of ps qs b = \<lparr>params = JObj ps, query = JObj qs, body = JObj b\<rparr>"

text \<open>
  The specification's notion of a match: the name is a substring of the field once
  both are put in one case.
\<close>

definition ci_substring :: "string \<Rightarrow> string \<Rightarrow> bool" where
  "ci_substring n s = sublist (map canon n) (map canon s)"


text \<open>Shorthand for the outcomes and the example data of the statements below.\<close>

abbreviation ok :: "json \<Rightarrow> json list \<Rightarrow> store_op list \<Rightarrow> outcome" where
  "ok v docs ops \<equiv> (\<lparr>status = 200, payload = Json v\<rparr>, docs, ops)"

abbreviation rejected :: "env \<Rightarrow> route \<Rightarrow> request \<Rightarrow> json list \<Rightarrow> outcome" where
  "rejected e r req docs \<equiv>
     (\<lparr>status = 400, payload = ValidationFailed (violations e r req)\<rparr>, docs, [])"


abbreviation list_req :: "(string \<times> json) list \<Rightarrow> request" where
  "list_req q \<equiv> req_of [] q []"

abbreviation search_req :: "string \<Rightarrow> request" where
  "search_req n \<equiv> req_of [(''name'', JStr n)] [] []"

abbreviation update_req :: "(string \<times> json) list \<Rightarrow> request" where
  "update_req b \<equiv> req_of [(''id'', JStr ''1'')] [] b"

abbreviation doc :: "int \<Rightarrow> json" where
  "doc i \<equiv> JObj [(''id'', JNum i)]"

abbreviation entry :: "int \<Rightarrow> (string \<times> json) list \<Rightarrow> json" where
  "entry i nm \<equiv> JObj [(''id'', JNum i), (''name'', JObj nm)]"

abbreviation err :: "location \<Rightarrow> string \<Rightarrow> json option \<Rightarrow> string \<Rightarrow> verr" where
  "err l p v m \<equiv> \<lparr>e_loc = l, e_path = p, e_value = v, e_msg = m\<rparr>"

abbreviation image_on_update :: chain where
  "image_on_update \<equiv> mk InBody [''image''] False True True (IsLength (Some 1) None) default_msg"


section \<open>The validation layer rejects before the store is touched\<close>

lemma run_chains_append:
  "run_chains u (xs @ ys) req =
     (fst (run_chains u ys (fst (run_chains u xs req))),
      snd (run_chains u xs req) @ snd (run_chains u ys (fst (run_chains u xs req))))"
  by (induction xs arbitrary: req) (simp_all add: Let_def)






text \<open>
  Claim C7. On every route, a request in which the validation layer finds an error is
  answered 400 with those errors; the handler is not run, so no store operation is
  issued and the collection is what it was.
\<close>

theorem validation_failure_short_circuits:
  "violations e r req \<noteq> [] \<Longrightarrow> serve e r req docs = rejected e r req docs"
  by (simp add: serve_def validated_def handleValidation_def violations_def)

theorem validation_failure_short_circuits_witness:
  "violations plain_env ListPokemons (list_req [(''limit'', JStr ''0'')]) \<noteq> []
   \<and> serve plain_env ListPokemons (list_req [(''limit'', JStr ''0'')]) [doc 1] =
       rejected plain_env ListPokemons (list_req [(''limit'', JStr ''0'')]) [doc 1]"
proof -
  have h: "violations plain_env ListPokemons (list_req [(''limit'', JStr ''0'')]) \<noteq> []"
    by code_simp
  show ?thesis
    by (rule conjI [OF h validation_failure_short_circuits [OF h]])
qed

section \<open>Listing with pagination\<close>

lemma get_seg_key: "get_seg v (Key k) = member_of v k"
  by (cases v) simp_all







lemma serve_passes:
  "violations e r req = [] \<Longrightarrow> serve e r req docs = route_handler e r (sanitised e r req) docs"
  by (simp add: serve_def validated_def handleValidation_def violations_def sanitised_def)






lemma serve_rejects:
  "violations e r req \<noteq> [] \<Longrightarrow> serve e r req docs = rejected e r req docs"
  by (simp add: serve_def validated_def handleValidation_def violations_def)



section \<open>Searching by name\<close>



lemma match_here_Nomatch: "match_here Nomatch s = False"
  by (induction s) simp_all









lemma map_of_put_same: "map_of (put k v kvs) k = Some v"
  by (induction kvs) auto

lemma map_of_put_other: "k' \<noteq> k \<Longrightarrow> map_of (put k v kvs) k' = map_of kvs k'"
  by (induction kvs) auto

lemma member_assign_same:
  "member_of d k = Some x \<Longrightarrow> member_of (assign (Key k) v d) k = Some v"
  by (cases d) (simp_all add: map_of_put_same)

lemma member_assign_other:
  "k' \<noteq> k \<Longrightarrow> member_of (assign (Key k) v d) k' = member_of d k'"
  by (cases d) (simp_all add: map_of_put_other)

lemma search_validation:
  assumes "member_of (params req) ''name'' = Some (JStr raw)"
  shows "(violations e SearchPokemon req = []) = isLength (Some 1) (Some 50) (trim raw)"
    and "member_of (params (sanitised e SearchPokemon req)) ''name'' = Some (JStr (trim raw))"
  using assms
  by (auto simp: violations_def sanitised_def search_chains_def mk_def run_chain_def instances_def
      run_instance_def Let_def get_seg_key failing_def member_assign_same)




lemma search_serve:
  assumes "member_of (params req) ''name'' = Some (JStr raw)"
    and "isLength (Some 1) (Some 50) (trim raw)"
  shows "serve e SearchPokemon req docs =
     (case RegExp_i (RegExp_other e) (trim raw) of
        None \<Rightarrow> (\<lparr>status = 500, payload = ErrorText RegexSyntaxError\<rparr>, docs, [])
      | Some t \<Rightarrow>
          (case find (name_matches t) docs of
             Some hit \<Rightarrow> ok hit docs [FindOne]
           | None \<Rightarrow> (not_found, docs, [FindOne])))"
proof -
  have v: "violations e SearchPokemon req = []"
    using search_validation(1) [OF assms(1), of e] assms(2) by simp
  show ?thesis
    unfolding serve_passes [OF v]
    by (simp add: search_handler_def search_validation(2) [OF assms(1)])
qed




text \<open>
  Claim C9. The search name goes into the regular expression as it is. The name \<open>(\<close>,
  of length 1, is no regular expression: the constructor throws, no store call is made
  and the answer is 500. The name \<open>pik.chu\<close> is not a substring of \<open>Pikachu\<close> and
  finds it all the same, its dot standing for any character.
\<close>

theorem search_name_is_a_pattern:
  "length (trim ''('') = 1
   \<and> serve e SearchPokemon (search_req ''('') docs
       = (\<lparr>status = 500, payload = ErrorText RegexSyntaxError\<rparr>, docs, [])
   \<and> \<not> ci_substring ''pik.chu'' ''Pikachu''
   \<and> serve e SearchPokemon (search_req ''pik.chu'') [entry 25 [(''english'', JStr ''Pikachu'')]]
       = ok (entry 25 [(''english'', JStr ''Pikachu'')]) [entry 25 [(''english'', JStr ''Pikachu'')]] [FindOne]"
  (is "?l1 \<and> ?A \<and> ?n \<and> ?B")
proof -
  let ?rx = "seq_of [Chr CHR ''p'', Chr CHR ''i'', Chr CHR ''k'', Dot, Chr CHR ''c'', Chr CHR ''h'', Chr CHR ''u'']"
  have l1: ?l1 and n: ?n by code_simp+
  have t1: "trim ''('' = ''(''" and t2: "trim ''pik.chu'' = ''pik.chu''" by code_simp+
  have p1: "parse_pattern ''('' = SyntaxError" by code_simp
  have p2: "parse_pattern ''pik.chu'' = Parsed ?rx" by code_simp
  have m: "name_matches (rx_test ?rx) (entry 25 [(''english'', JStr ''Pikachu'')])" by code_simp
  have a1: "member_of (params (search_req ''('')) ''name'' = Some (JStr ''('')"
    and a2: "member_of (params (search_req ''pik.chu'')) ''name'' = Some (JStr ''pik.chu'')"
    by (simp_all add: req_of_def)
  have b1: "isLength (Some 1) (Some 50) (trim ''('')" unfolding t1 by (simp add: isLength_def)
  have b2: "isLength (Some 1) (Some 50) (trim ''pik.chu'')" unfolding t2 by (simp add: isLength_def)
  have A: ?A unfolding search_serve [OF a1 b1] t1 by (simp add: RegExp_i_def p1)
  have B: ?B unfolding search_serve [OF a2 b2] t2 by (simp add: RegExp_i_def p2 m)
  from l1 A n B show ?thesis by (intro conjI)
qed

section \<open>Updating a record\<close>

lemma spread_keys: "fst ` set (spread b k) \<subseteq> {k}"
  by (auto simp: spread_def split: option.splits if_splits)

lemma update_fields_keys:
  "fst ` set (update_fields b) \<subseteq> {''name'', ''type'', ''base'', ''image''}"
  using spread_keys [of b "''name''"] spread_keys [of b "''type''"]
    spread_keys [of b "''base''"] spread_keys [of b "''image''"]
  by (auto simp: update_fields_def)

lemma cast_update_keys: "cast_update e fs = Some upd \<Longrightarrow> map fst upd = map fst fs"
proof (induction fs arbitrary: upd)
  case Nil
  then show ?case by (simp add: cast_update_def)
next
  case (Cons kv fs)
  from Cons.prems obtain v rest where
    v: "schema_cast e (fst kv) (snd kv) = Some v"
    and rest: "cast_update e fs = Some rest"
    and upd: "upd = (fst kv, v) # rest"
    by (auto simp: cast_update_def split: option.splits)
  from Cons.IH [OF rest] upd show ?case by simp
qed

lemma apply_update_other:
  "k \<notin> fst ` set upd \<Longrightarrow> member_of (apply_update upd d) k = member_of d k"
proof (induction upd arbitrary: d)
  case Nil
  then show ?case by (simp add: apply_update_def)
next
  case (Cons kv upd)
  from Cons.prems have ne: "k \<noteq> fst kv" and rest: "k \<notin> fst ` set upd" by auto
  have "member_of (apply_update (kv # upd) d) k
      = member_of (apply_update upd (assign (Key (fst kv)) (snd kv) d)) k"
    by (simp add: apply_update_def)
  also have "\<dots> = member_of (assign (Key (fst kv)) (snd kv) d) k"
    by (rule Cons.IH [OF rest])
  also have "\<dots> = member_of d k"
    using ne by (simp add: member_assign_other)
  finally show ?case .
qed

lemma update_first_map:
  "(\<And>d. g (f d) = g d) \<Longrightarrow> map g (update_first P f ds) = map g ds"
  by (induction ds) simp_all

lemma update_handler_ids:
  "map (\<lambda>d. member_of d ''id'') (fst (snd (update_handler e req docs)))
     = map (\<lambda>d. member_of d ''id'') docs"
proof -
  have "\<And>upd d. cast_update e (update_fields (body req)) = Some upd \<Longrightarrow>
      member_of (apply_update upd d) ''id'' = member_of d ''id''"
  proof (rule apply_update_other)
    fix upd
    assume "cast_update e (update_fields (body req)) = Some upd"
    from cast_update_keys [OF this] have "fst ` set upd = fst ` set (update_fields (body req))"
      by (metis set_map)
    with update_fields_keys [of "body req"] show "''id'' \<notin> fst ` set upd" by auto
  qed
  then show ?thesis
    by (auto simp: update_handler_def update_first_map [where g = "\<lambda>d. member_of d ''id''"]
        split: option.splits)
qed

text \<open>
  Claim C8. Whatever the update request holds, an \<open>id\<close> in its body included, every
  record of the collection has after the update the \<open>id\<close> it had before: the update
  document is built from \<open>name\<close>, \<open>type\<close>, \<open>base\<close> and \<open>image\<close> alone.
\<close>

theorem update_keeps_ids:
  "map (\<lambda>d. member_of d ''id'') (fst (snd (serve e UpdatePokemon req docs)))
     = map (\<lambda>d. member_of d ''id'') docs"
proof (cases "violations e UpdatePokemon req = []")
  case True
  show ?thesis unfolding serve_passes [OF True] by (simp add: update_handler_ids)
next
  case False
  show ?thesis unfolding serve_rejects [OF False] by simp
qed

lemma run_instance_untrimmed: "\<not> c_trim ch \<Longrightarrow> fst (run_instance u ch st segs) = fst st"
  by (simp add: run_instance_def Let_def)

lemma foldl_untrimmed: "\<not> c_trim ch \<Longrightarrow> fst (foldl (run_instance u ch) st is) = fst st"
  by (induction "is" arbitrary: st) (simp_all add: run_instance_untrimmed)

lemma run_chain_untrimmed: "\<not> c_trim ch \<Longrightarrow> fst (run_chain u ch req) = req"
  by (simp add: run_chain_def foldl_untrimmed)

lemma set_path_member_other:
  "k' \<noteq> k \<Longrightarrow> member_of (set_path v (Key k # ss) w) k' = member_of v k'"
  by (cases ss) (simp_all add: member_assign_other)

lemma run_instance_frame:
  assumes "c_loc ch = InBody" and "k' \<noteq> k"
  shows "params (fst (run_instance u ch st (Key k # ss))) = params (fst st)
       \<and> query (fst (run_instance u ch st (Key k # ss))) = query (fst st)
       \<and> member_of (body (fst (run_instance u ch st (Key k # ss)))) k' = member_of (body (fst st)) k'"
  using assms
  by (simp add: run_instance_def Let_def set_path_member_other del: set_path.simps get_path.simps)

lemma instances_head:
  assumes "c_path ch = k # ks" and "segs \<in> set (instances r ch)"
  shows "\<exists>ss. segs = Key k # ss"
proof (cases "c_wild ch")
  case False
  with assms show ?thesis by (simp add: instances_def)
next
  case True
  show ?thesis
  proof (cases "get_path r (map Key (c_path ch))")
    case None
    with True assms(2) show ?thesis by (simp add: instances_def)
  next
    case (Some v)
    with True assms show ?thesis
      by (cases v) (auto simp: instances_def simp del: get_path.simps)
  qed
qed

lemma foldl_frame:
  assumes "c_loc ch = InBody" and "k' \<noteq> k" and "\<forall>segs\<in>set is. \<exists>ss. segs = Key k # ss"
  shows "params (fst (foldl (run_instance u ch) st is)) = params (fst st)
       \<and> query (fst (foldl (run_instance u ch) st is)) = query (fst st)
       \<and> member_of (body (fst (foldl (run_instance u ch) st is))) k' = member_of (body (fst st)) k'"
  using assms(3)
proof (induction "is" arbitrary: st)
  case Nil
  then show ?case by simp
next
  case (Cons i "is")
  from Cons.prems obtain ss where i: "i = Key k # ss" by auto
  from Cons.prems have rest: "\<forall>segs\<in>set is. \<exists>ss. segs = Key k # ss" by simp
  from Cons.IH [OF rest, of "run_instance u ch st i"]
    run_instance_frame [OF assms(1,2), of u st ss]
  show ?case unfolding i by simp
qed

lemma run_chain_frame:
  assumes "c_loc ch = InBody" and "c_path ch = k # ks" and "k' \<noteq> k"
  shows "params (fst (run_chain u ch req)) = params req
       \<and> query (fst (run_chain u ch req)) = query req
       \<and> member_of (body (fst (run_chain u ch req))) k' = member_of (body req) k'"
proof -
  have "\<forall>segs\<in>set (instances (root req (c_loc ch)) ch). \<exists>ss. segs = Key k # ss"
    using instances_head [OF assms(2)] by blast
  from foldl_frame [OF assms(1,3) this, of u "(req, [])"] show ?thesis
    by (simp add: run_chain_def)
qed

lemma run_chains_frame:
  assumes "\<forall>ch\<in>set chs. \<not> c_trim ch \<or> (c_loc ch = InBody \<and> (\<exists>k ks. c_path ch = k # ks \<and> k \<noteq> k'))"
  shows "params (fst (run_chains u chs req)) = params req
       \<and> query (fst (run_chains u chs req)) = query req
       \<and> member_of (body (fst (run_chains u chs req))) k' = member_of (body req) k'"
  using assms
proof (induction chs arbitrary: req)
  case Nil
  then show ?case by simp
next
  case (Cons ch chs)
  from Cons.prems have rest:
    "\<forall>ch\<in>set chs. \<not> c_trim ch \<or> (c_loc ch = InBody \<and> (\<exists>k ks. c_path ch = k # ks \<and> k \<noteq> k'))"
    by simp
  have step: "params (fst (run_chain u ch req)) = params req
       \<and> query (fst (run_chain u ch req)) = query req
       \<and> member_of (body (fst (run_chain u ch req))) k' = member_of (body req) k'"
  proof (cases "c_trim ch")
    case False
    then show ?thesis by (simp add: run_chain_untrimmed)
  next
    case True
    with Cons.prems obtain k ks where "c_loc ch = InBody" "c_path ch = k # ks" "k' \<noteq> k" by auto
    then show ?thesis by (rule run_chain_frame)
  qed
  from Cons.IH [OF rest, of "fst (run_chain u ch req)"] step show ?case
    by (simp add: Let_def)
qed





subsection \<open>The constraints of an update\<close>






lemma update_other_frame:
  "\<forall>ch\<in>set (butlast update_chains).
     \<not> c_trim ch \<or> (c_loc ch = InBody \<and> (\<exists>k ks. c_path ch = k # ks \<and> k \<noteq> ''image''))"
  by (simp add: update_chains_def mk_def stat_names_def)




lemma update_chains_split:
  "update_chains = butlast update_chains @ [image_on_update]"
  by (simp add: update_chains_def stat_names_def)







subsection \<open>What an update changes\<close>

lemma update_params_kept: "params (sanitised e UpdatePokemon req) = params req"
proof -
  have "\<forall>ch\<in>set update_chains.
     \<not> c_trim ch \<or> (c_loc ch = InBody \<and> (\<exists>k ks. c_path ch = k # ks \<and> k \<noteq> ''id''))"
    by (simp add: update_chains_def mk_def stat_names_def)
  from run_chains_frame [OF this, of "isURL_rest e" req] show ?thesis
    by (simp add: sanitised_def)
qed


lemma apply_update_obj:
  assumes "distinct (map fst upd)"
  shows "member_of (apply_update upd (JObj kvs)) k =
           (case map_of upd k of Some v \<Rightarrow> Some v | None \<Rightarrow> map_of kvs k)"
  using assms
proof (induction upd arbitrary: kvs)
  case Nil
  then show ?case by (simp add: apply_update_def)
next
  case (Cons kv upd)
  obtain a b where kv: "kv = (a, b)" by (cases kv)
  from Cons.prems have d: "distinct (map fst upd)" and fresh: "a \<notin> fst ` set upd"
    unfolding kv by auto
  have step: "apply_update (kv # upd) (JObj kvs) = apply_update upd (JObj (put a b kvs))"
    by (simp add: apply_update_def kv)
  have IH: "member_of (apply_update upd (JObj (put a b kvs))) k =
           (case map_of upd k of Some v \<Rightarrow> Some v | None \<Rightarrow> map_of (put a b kvs) k)"
    by (rule Cons.IH [OF d])
  show ?case
  proof (cases "k = a")
    case True
    with fresh have "map_of upd k = None" by (simp add: map_of_eq_None_iff)
    with True show ?thesis
      unfolding step IH by (simp add: kv map_of_put_same split: option.splits)
  next
    case False
    then show ?thesis
      unfolding step IH by (simp add: kv map_of_put_other split: option.splits)
  qed
qed

lemma has_id_obj: "has_id n d \<Longrightarrow> \<exists>kvs. d = JObj kvs"
  by (cases d) (simp_all add: has_id_def)

lemma map_of_cast_update:
  "cast_update e fs = Some upd \<Longrightarrow> map_of upd k = Option.bind (map_of fs k) (schema_cast e k)"
proof (induction fs arbitrary: upd)
  case Nil
  then show ?case by (simp add: cast_update_def)
next
  case (Cons kv fs)
  from Cons.prems obtain v rest where
    v: "schema_cast e (fst kv) (snd kv) = Some v"
    and rest: "cast_update e fs = Some rest"
    and upd: "upd = (fst kv, v) # rest"
    by (auto simp: cast_update_def split: option.splits)
  from Cons.IH [OF rest] v upd show ?case by (cases kv) auto
qed

lemma spread_fst: "map fst (spread b k) = (if truthy (member_of b k) then [k] else [])"
  by (cases "member_of b k") (simp_all add: spread_def)

lemma map_of_spread:
  "map_of (spread b k0) k = (if k = k0 \<and> truthy (member_of b k0) then member_of b k0 else None)"
  by (cases "member_of b k0") (simp_all add: spread_def)

lemma map_of_update_fields:
  "map_of (update_fields b) k =
     (if k \<in> {''name'', ''type'', ''base'', ''image''} \<and> truthy (member_of b k) then member_of b k else None)"
proof -
  have split: "\<And>k. map_of (update_fields b) k =
      (case map_of (spread b ''name'') k of Some v \<Rightarrow> Some v
       | None \<Rightarrow> (case map_of (spread b ''type'') k of Some v \<Rightarrow> Some v
       | None \<Rightarrow> (case map_of (spread b ''base'') k of Some v \<Rightarrow> Some v
       | None \<Rightarrow> map_of (spread b ''image'') k)))"
    by (simp add: update_fields_def map_add_def split: option.splits)
  have some: "\<And>k0. truthy (member_of b k0) \<Longrightarrow> \<exists>v. member_of b k0 = Some v"
  proof -
    fix k0
    assume "truthy (member_of b k0)"
    then show "\<exists>v. member_of b k0 = Some v" by (cases "member_of b k0") simp_all
  qed
  consider (name) "k = ''name''" | (type) "k = ''type''" | (base) "k = ''base''"
    | (image) "k = ''image''"
    | (other) "k \<noteq> ''name''" "k \<noteq> ''type''" "k \<noteq> ''base''" "k \<noteq> ''image''"
    by blast
  then show ?thesis
  proof cases
    case name
    show ?thesis unfolding split map_of_spread name using some [of "''name''"] by auto
  next
    case type
    show ?thesis unfolding split map_of_spread type using some [of "''type''"] by auto
  next
    case base
    show ?thesis unfolding split map_of_spread base using some [of "''base''"] by auto
  next
    case image
    show ?thesis unfolding split map_of_spread image using some [of "''image''"] by auto
  next
    case other
    then show ?thesis unfolding split map_of_spread by simp
  qed
qed

lemma distinct_update_fields: "distinct (map fst (update_fields b))"
  by (simp add: update_fields_def spread_fst)



lemma updated_member:
  assumes "find (has_id n) docs = Some old"
    and "cast_update e (update_fields b) = Some upd"
  shows "member_of (apply_update upd old) k =
     (if k \<in> {''name'', ''type'', ''base'', ''image''} \<and> truthy (member_of b k)
      then Option.bind (member_of b k) (schema_cast e k)
      else member_of old k)"
proof -
  from assms(1) have "has_id n old" by (auto simp: find_Some_iff)
  then obtain kvs where old: "old = JObj kvs" using has_id_obj by blast
  have d: "distinct (map fst upd)"
    using cast_update_keys [OF assms(2)] distinct_update_fields [of b] by simp
  have m: "map_of upd k = Option.bind (map_of (update_fields b) k) (schema_cast e k)"
    by (rule map_of_cast_update [OF assms(2)])
  have "map_of upd k = None \<longleftrightarrow> map_of (update_fields b) k = None"
    using cast_update_keys [OF assms(2)] by (metis map_of_eq_None_iff set_map)
  with m show ?thesis
    unfolding old apply_update_obj [OF d] map_of_update_fields
    by (auto split: option.splits if_splits)
qed




subsection \<open>Falsy fields in an update\<close>

lemma falsy_has_no_member:
  "\<not> truthy (Some w) \<Longrightarrow> get_seg w (Key x) = None"
  by (cases w) simp_all

lemma run_chain_skips_under_falsy:
  assumes "c_loc ch = InBody" and "c_optional ch" and "\<not> c_wild ch" and "c_path ch = [k, x]"
    and "\<not> truthy (member_of (body r) k)"
  shows "run_chain u ch r = (r, [])"
proof -
  have "get_path (body r) [Key k, Key x] = None"
  proof (cases "member_of (body r) k")
    case None
    then show ?thesis by (simp add: get_seg_key)
  next
    case (Some w)
    with assms(5) have "get_seg w (Key x) = None" by (simp add: falsy_has_no_member)
    with Some show ?thesis by (simp add: get_seg_key)
  qed
  with assms(1-4) show ?thesis
    by (simp add: run_chain_def instances_def run_instance_def Let_def del: get_path.simps)
qed

lemma run_chains_keep_falsy:
  assumes "\<forall>ch\<in>set chs.
      \<not> c_trim ch
      \<or> (c_loc ch = InBody \<and> (\<exists>k0 ks. c_path ch = k0 # ks \<and> k0 \<noteq> k))
      \<or> (c_loc ch = InBody \<and> c_optional ch \<and> \<not> c_wild ch \<and> (\<exists>x. c_path ch = [k, x]))"
    and "\<not> truthy (member_of (body req) k)"
  shows "member_of (body (fst (run_chains u chs req))) k = member_of (body req) k"
  using assms
proof (induction chs arbitrary: req)
  case Nil
  then show ?case by simp
next
  case (Cons ch chs)
  from Cons.prems(1) have rest: "\<forall>ch\<in>set chs.
      \<not> c_trim ch
      \<or> (c_loc ch = InBody \<and> (\<exists>k0 ks. c_path ch = k0 # ks \<and> k0 \<noteq> k))
      \<or> (c_loc ch = InBody \<and> c_optional ch \<and> \<not> c_wild ch \<and> (\<exists>x. c_path ch = [k, x]))"
    by simp
  from Cons.prems(1) consider
      (plain) "\<not> c_trim ch"
    | (other) k0 ks where "c_loc ch = InBody" "c_path ch = k0 # ks" "k0 \<noteq> k"
    | (under) x where "c_loc ch = InBody" "c_optional ch" "\<not> c_wild ch" "c_path ch = [k, x]"
    by auto
  then have step: "member_of (body (fst (run_chain u ch req))) k = member_of (body req) k"
  proof cases
    case plain
    then show ?thesis by (simp add: run_chain_untrimmed)
  next
    case other
    from run_chain_frame [OF other(1,2), of k u req] other(3) show ?thesis by simp
  next
    case under
    from run_chain_skips_under_falsy [OF under Cons.prems(2)] show ?thesis by simp
  qed
  with Cons.prems(2) have f: "\<not> truthy (member_of (body (fst (run_chain u ch req))) k)" by simp
  from Cons.IH [OF rest f] step show ?case by (simp add: Let_def)
qed

lemma update_keeps_falsy:
  assumes "k = ''name'' \<or> k = ''base''" and "\<not> truthy (member_of (body req) k)"
  shows "member_of (body (sanitised e UpdatePokemon req)) k = member_of (body req) k"
proof -
  have "\<forall>ch\<in>set update_chains.
      \<not> c_trim ch
      \<or> (c_loc ch = InBody \<and> (\<exists>k0 ks. c_path ch = k0 # ks \<and> k0 \<noteq> k))
      \<or> (c_loc ch = InBody \<and> c_optional ch \<and> \<not> c_wild ch \<and> (\<exists>x. c_path ch = [k, x]))"
    using assms(1) by (auto simp: update_chains_def mk_def stat_names_def)
  from run_chains_keep_falsy [OF this assms(2)] show ?thesis
    by (simp add: sanitised_def)
qed

lemma violation_in_chain:
  assumes "route_chains r = pre @ ch # post"
    and "snd (run_chain (isURL_rest e) ch (fst (run_chains (isURL_rest e) pre req))) \<noteq> []"
  shows "violations e r req \<noteq> []"
  using assms by (simp add: violations_def run_chains_append Let_def)

lemma update_type_split:
  "route_chains UpdatePokemon =
     take 5 update_chains
     @ mk InBody [''type''] False True False (IsArray (Some 1) (Some 2)) default_msg
     # drop 6 update_chains"
  by (simp add: update_chains_def)

lemma update_type_frame:
  "\<forall>ch\<in>set (take 5 update_chains).
     \<not> c_trim ch \<or> (c_loc ch = InBody \<and> (\<exists>k ks. c_path ch = k # ks \<and> k \<noteq> ''type''))"
  by (simp add: update_chains_def mk_def)

lemma falsy_not_array: "\<not> truthy (Some v) \<Longrightarrow> \<not> isArray lo hi (Some v)"
  by (cases v) simp_all

lemma update_falsy_type_rejected:
  assumes "member_of (body req) ''type'' = Some v" and "\<not> truthy (Some v)"
  shows "violations e UpdatePokemon req \<noteq> []"
proof -
  let ?r = "fst (run_chains (isURL_rest e) (take 5 update_chains) req)"
  have m: "member_of (body ?r) ''type'' = Some v"
    using run_chains_frame [OF update_type_frame, of "isURL_rest e" req] assms(1) by simp
  have "snd (run_chain (isURL_rest e)
          (mk InBody [''type''] False True False (IsArray (Some 1) (Some 2)) default_msg) ?r) \<noteq> []"
    using m falsy_not_array [OF assms(2)]
    by (simp add: run_chain_def instances_def mk_def run_instance_def Let_def get_seg_key)
  with update_type_split show ?thesis by (rule violation_in_chain)
qed

lemma update_image_split:
  "route_chains UpdatePokemon =
     butlast update_chains
     @ image_on_update # []"
  using update_chains_split by simp

lemma update_empty_image_rejected:
  assumes "member_of (body req) ''image'' = Some v" and "v = JNull \<or> v = JStr []"
  shows "violations e UpdatePokemon req \<noteq> []"
proof -
  let ?r = "fst (run_chains (isURL_rest e) (butlast update_chains) req)"
  have m: "member_of (body ?r) ''image'' = Some v"
    using run_chains_frame [OF update_other_frame, of "isURL_rest e" req] assms(1) by simp
  have t: "trim [] = []" by (simp add: trim_def)
  have "snd (run_chain (isURL_rest e)
          image_on_update ?r) \<noteq> []"
    using m assms(2)
    by (auto simp: run_chain_def instances_def mk_def run_instance_def Let_def get_seg_key
        failing_def isLength_def t)
  with update_image_split show ?thesis by (rule violation_in_chain)
qed


lemma falsy_not_updated: "\<not> truthy (member_of b k) \<Longrightarrow> k \<notin> fst ` set (update_fields b)"
proof -
  assume "\<not> truthy (member_of b k)"
  then have "map_of (update_fields b) k = None"
    unfolding map_of_update_fields by simp
  then show ?thesis by (simp add: map_of_eq_None_iff)
qed

lemma update_falsy_kept:
  assumes "k = ''name'' \<or> k = ''base''"
    and "\<not> truthy (member_of (body req) k)"
    and "violations e UpdatePokemon req = []"
    and "cast_id (member_of (params req) ''id'') = Some n"
    and "find (has_id n) docs = Some old"
    and "cast_update e (update_fields (body (sanitised e UpdatePokemon req))) = Some upd"
  shows "serve e UpdatePokemon req docs =
           ok (apply_update upd old) (update_first (has_id n) (apply_update upd) docs) [FindOneAndUpdate]
         \<and> member_of (apply_update upd old) k = member_of old k"
proof -
  have f: "\<not> truthy (member_of (body (sanitised e UpdatePokemon req)) k)"
    using update_keeps_falsy [OF assms(1,2), of e] assms(2) by simp
  have one: "serve e UpdatePokemon req docs =
           ok (apply_update upd old) (update_first (has_id n) (apply_update upd) docs) [FindOneAndUpdate]"
    unfolding serve_passes [OF assms(3)]
    by (simp add: update_handler_def update_params_kept assms(4,5,6))
  have two: "member_of (apply_update upd old) k = member_of old k"
    unfolding updated_member [OF assms(5,6)] using f by simp
  from one two show ?thesis by (rule conjI)
qed

text \<open>
  Claim C10, as amended. The handler puts a field into the update only when its value
  is truthy. A request that passes validation, finds its record and passes the schema,
  and whose body gives \<open>name\<close> or \<open>base\<close> a falsy value (or none), is answered 200 with
  that field of the record as it was. A falsy \<open>type\<close>, and an \<open>image\<close> that is \<open>null\<close>
  or the empty string, do not reach the handler: the validation layer answers 400 and
  the collection is what it was.
\<close>

theorem update_skips_falsy_fields:
  "(\<not> truthy (member_of b k) \<longrightarrow> k \<notin> fst ` set (update_fields b))
   \<and> ((k = ''name'' \<or> k = ''base'') \<and> \<not> truthy (member_of (body req) k)
        \<and> violations e UpdatePokemon req = []
        \<and> cast_id (member_of (params req) ''id'') = Some n
        \<and> find (has_id n) docs = Some old
        \<and> cast_update e (update_fields (body (sanitised e UpdatePokemon req))) = Some upd
      \<longrightarrow> serve e UpdatePokemon req docs =
            ok (apply_update upd old) (update_first (has_id n) (apply_update upd) docs) [FindOneAndUpdate]
          \<and> member_of (apply_update upd old) k = member_of old k)
   \<and> (member_of (body req) ''type'' = Some v \<and> \<not> truthy (Some v)
      \<longrightarrow> serve e UpdatePokemon req docs = rejected e UpdatePokemon req docs)
   \<and> (member_of (body req) ''image'' = Some w \<and> (w = JNull \<or> w = JStr [])
      \<longrightarrow> serve e UpdatePokemon req docs = rejected e UpdatePokemon req docs)"
  (is "(?p1 \<longrightarrow> ?c1) \<and> (?p2 \<longrightarrow> ?c2) \<and> (?p3 \<longrightarrow> ?c3) \<and> (?p4 \<longrightarrow> ?c3)")
proof -
  have one: "?p1 \<longrightarrow> ?c1" using falsy_not_updated by blast
  have two: "?p2 \<longrightarrow> ?c2" using update_falsy_kept [of k req e n docs old upd] by blast
  have three: "?p3 \<longrightarrow> ?c3"
    using update_falsy_type_rejected [of req v e] serve_rejects [of e UpdatePokemon req docs] by blast
  have four: "?p4 \<longrightarrow> ?c3"
    using update_empty_image_rejected [of req w e] serve_rejects [of e UpdatePokemon req docs] by blast
  from one two three four show ?thesis by (intro conjI)
qed

theorem update_skips_falsy_fields_witness:
  "\<not> truthy (member_of (JObj [(''name'', JNull)]) ''name'')
   \<and> ''name'' \<notin> fst ` set (update_fields (JObj [(''name'', JNull)]))
   \<and> \<not> truthy (member_of (body (update_req [(''name'', JNull)])) ''name'')
   \<and> violations plain_env UpdatePokemon (update_req [(''name'', JNull)]) = []
   \<and> cast_id (member_of (params (update_req [(''name'', JNull)])) ''id'') = Some 1
   \<and> find (has_id 1) [entry 1 [(''english'', JStr ''Bulbasaur'')]]
       = Some (entry 1 [(''english'', JStr ''Bulbasaur'')])
   \<and> cast_update plain_env
        (update_fields (body (sanitised plain_env UpdatePokemon (update_req [(''name'', JNull)])))) = Some []
   \<and> serve plain_env UpdatePokemon (update_req [(''name'', JNull)])
        [entry 1 [(''english'', JStr ''Bulbasaur'')]]
      = ok (entry 1 [(''english'', JStr ''Bulbasaur'')]) [entry 1 [(''english'', JStr ''Bulbasaur'')]]
           [FindOneAndUpdate]
   \<and> member_of (body (update_req [(''type'', JNull)])) ''type'' = Some JNull
   \<and> \<not> truthy (Some JNull)
   \<and> status (fst (serve plain_env UpdatePokemon (update_req [(''type'', JNull)])
        [entry 1 [(''english'', JStr ''Bulbasaur'')]])) = 400
   \<and> member_of (body (update_req [(''image'', JNull)])) ''image'' = Some JNull
   \<and> status (fst (serve plain_env UpdatePokemon (update_req [(''image'', JNull)])
        [entry 1 [(''english'', JStr ''Bulbasaur'')]])) = 400"
  (is "?a1 \<and> ?A \<and> ?b1 \<and> ?b2 \<and> ?b3 \<and> ?b4 \<and> ?b5 \<and> ?B \<and> ?c1 \<and> ?c2 \<and> ?C \<and> ?d1 \<and> ?D")
proof -
  let ?old = "entry 1 [(''english'', JStr ''Bulbasaur'')]"
  have a1: ?a1 and c2: ?c2 by simp_all
  have b1: ?b1 and c1: ?c1 and d1: ?d1 by (simp_all add: req_of_def)
  have b2: ?b2 and b3: ?b3 and b4: ?b4 and b5: ?b5 by code_simp+
  note t1 = update_skips_falsy_fields [where b = "JObj [(''name'', JNull)]" and k = "''name''"
      and req = "update_req [(''name'', JNull)]" and e = plain_env and n = 1 and docs = "[?old]"
      and old = ?old and upd = "[]"]
  note t2 = update_skips_falsy_fields [where req = "update_req [(''type'', JNull)]" and e = plain_env
      and v = JNull and docs = "[?old]"]
  note t3 = update_skips_falsy_fields [where req = "update_req [(''image'', JNull)]" and e = plain_env
      and w = JNull and docs = "[?old]"]
  from t1 a1 have A: ?A by blast
  from t1 b1 b2 b3 b4 b5 have "serve plain_env UpdatePokemon (update_req [(''name'', JNull)]) [?old] =
      ok (apply_update [] ?old) (update_first (has_id 1) (apply_update []) [?old]) [FindOneAndUpdate]"
    by blast
  then have B: ?B by (simp add: apply_update_def has_id_def)
  from t2 c1 c2 have "serve plain_env UpdatePokemon (update_req [(''type'', JNull)]) [?old] =
      rejected plain_env UpdatePokemon (update_req [(''type'', JNull)]) [?old]"
    by blast
  then have C: ?C by simp
  from t3 d1 have "serve plain_env UpdatePokemon (update_req [(''image'', JNull)]) [?old] =
      rejected plain_env UpdatePokemon (update_req [(''image'', JNull)]) [?old]"
    by blast
  then have D: ?D by simp
  from a1 A b1 b2 b3 b4 b5 B c1 c2 C d1 D show ?thesis by (intro conjI)
qed

text \<open>
  A \<open>null\<close> type is answered 400, not 200; and the falsy image \<open>0\<close> is turned into the
  string \<open>0\<close> by the sanitizer and replaces the record's image.
\<close>

theorem update_falsy_counterexample:
  "member_of (body (update_req [(''type'', JNull)])) ''type'' = Some JNull
   \<and> \<not> truthy (Some JNull)
   \<and> serve plain_env UpdatePokemon (update_req [(''type'', JNull)])
        [JObj [(''id'', JNum 1), (''type'', JArr [JStr ''Grass''])]]
      = (\<lparr>status = 400,
           payload = ValidationFailed [err InBody ''type'' (Some JNull) ''Invalid value'']\<rparr>,
         [JObj [(''id'', JNum 1), (''type'', JArr [JStr ''Grass''])]], [])
   \<and> \<not> truthy (Some (JNum 0))
   \<and> serve plain_env UpdatePokemon (update_req [(''image'', JNum 0)])
        [JObj [(''id'', JNum 1), (''image'', JStr ''http://x/b.png'')]]
      = ok (JObj [(''id'', JNum 1), (''image'', JStr ''0'')])
           [JObj [(''id'', JNum 1), (''image'', JStr ''0'')]] [FindOneAndUpdate]"
  by code_simp

end
